theory Spec2Isabelle
  imports Main
begin

section \<open>xkbgroup.core: the symbol-string parser\<close>

text \<open>
  The exceptions the module can raise. \<open>X11Error\<close> is the module's own exception class
  and carries its message; the others are the Python built-ins raised by \<open>_ensure_type\<close>,
  by reading a missing attribute, by a dictionary lookup, by \<open>assert\<close>, by indexing a
  ctypes array out of range.
\<close>

datatype error =
    X11Error string
  | ValueError string
  | AttributeError string
  | KeyError
  | AssertionError
  | IndexError

subsection \<open>Characters\<close>

text \<open>
  A Python \<open>str\<close> is modelled as a \<open>string\<close> whose characters are the code points
  0..255. \<open>SYMBOL_REGEX\<close> is a \<open>str\<close> pattern, so \<open>\d\<close> is the class of Unicode decimal
  digits (below 256: the ASCII digits only) and \<open>\w\<close> the class of Unicode alphanumerics
  and the underscore (below 256: the ASCII ones, and the Latin-1 letters and numeric signs
  listed here).
\<close>

definition is_digit :: "char \<Rightarrow> bool" where
  "is_digit c = (let n = (of_char c :: nat) in 48 \<le> n \<and> n \<le> 57)"

definition is_word :: "char \<Rightarrow> bool" where
  "is_word c =
     (let n = (of_char c :: nat) in
        (48 \<le> n \<and> n \<le> 57) \<or> (65 \<le> n \<and> n \<le> 90) \<or> n = 95 \<or> (97 \<le> n \<and> n \<le> 122)
      \<or> n = 170 \<or> n = 178 \<or> n = 179 \<or> n = 181 \<or> n = 185 \<or> n = 186
      \<or> (188 \<le> n \<and> n \<le> 190) \<or> (192 \<le> n \<and> n \<le> 214) \<or> (216 \<le> n \<and> n \<le> 246)
      \<or> (248 \<le> n \<and> n \<le> 255))"

text \<open>\<open>int(index)\<close> on a string of decimal digits.\<close>

definition py_int :: "string \<Rightarrow> int" where
  "py_int ds = foldl (\<lambda>acc c. 10 * acc + (int (of_char c) - 48)) 0 ds"

text \<open>
  \<open>symbols_str.split('+')\<close>: the pieces between the separators, empty pieces kept; a
  string with \<open>n\<close> separators has \<open>n + 1\<close> pieces, and the empty string has one
  (so the list of pieces is never empty, and the first branch of the \<open>case\<close> is never taken).
\<close>

fun str_split :: "char \<Rightarrow> string \<Rightarrow> string list" where
  "str_split sep [] = [[]]"
| "str_split sep (c # cs) =
     (if c = sep then [] # str_split sep cs
      else (case str_split sep cs of
              [] \<Rightarrow> [[c]]
            | piece # pieces \<Rightarrow> (c # piece) # pieces))"

subsection \<open>SymbolData and SYMBOL_REGEX\<close>

record SymbolData =
  symbol :: string
  variant :: "string option"
  index :: int

text \<open>
  The optional group \<^verbatim>\<open>(?: \( (?P<variant>\w+) \) )?\<close> at the head of a string: the
  group and the rest when it matches, no group and the whole string when it does not.
  \<open>\w+\<close> is greedy; giving a character back never helps, since the next thing to match
  is \<open>)\<close>, which is no word character.
\<close>

definition match_variant :: "string \<Rightarrow> string option \<times> string" where
  "match_variant s =
     (case s of
        [] \<Rightarrow> (None, s)
      | c # r \<Rightarrow>
          if c = CHR ''('' then
            (case dropWhile is_word r of
               [] \<Rightarrow> (None, s)
             | c' # r' \<Rightarrow>
                 if takeWhile is_word r \<noteq> [] \<and> c' = CHR '')''
                 then (Some (takeWhile is_word r), r') else (None, s))
          else (None, s))"

text \<open>The optional group \<^verbatim>\<open>(?: : (?P<index>\d+) )?\<close>, in the same way.\<close>

definition match_index :: "string \<Rightarrow> string option \<times> string" where
  "match_index s =
     (case s of
        [] \<Rightarrow> (None, s)
      | c # r \<Rightarrow>
          if c = CHR '':'' \<and> takeWhile is_digit r \<noteq> []
          then (Some (takeWhile is_digit r), dropWhile is_digit r) else (None, s))"

text \<open>
  \<open>SYMBOL_REGEX.fullmatch(symstr)\<close>: the three named groups when the pattern
  \<^verbatim>\<open>(?P<symbol>\w+) (?: \( (?P<variant>\w+) \) )? (?: : (?P<index>\d+) )?\<close>
  consumes the whole string, \<open>None\<close> otherwise. An optional group that matched is never
  given up on backtracking with success: what follows it in the pattern cannot start with
  the \<open>(\<close> or \<open>:\<close> the group starts with. So the match is the greedy one, and it is a
  full match when nothing is left; this is also what \<open>_Compat_SRE_Pattern.fullmatch\<close>
  computes on Python older than 3.4 (\<open>match\<close>, then a test of the span).
\<close>

definition SYMBOL_REGEX_fullmatch :: "string \<Rightarrow> (string \<times> string option \<times> string option) option" where
  "SYMBOL_REGEX_fullmatch symstr =
     (if takeWhile is_word symstr = [] then None
      else
        (case match_variant (dropWhile is_word symstr) of
           (v, r2) \<Rightarrow>
             (case match_index r2 of
                (i, r3) \<Rightarrow>
                  if r3 = [] then Some (takeWhile is_word symstr, v, i) else None)))"

subsection \<open>_parse_symbols\<close>

definition malformed :: "string \<Rightarrow> error" where
  "malformed symstr = X11Error (''Malformed symbol string: '' @ [CHR 0x22] @ symstr @ [CHR 0x22])"

text \<open>
  The inner function \<open>get_symboldata\<close>, with \<open>default_index\<close> of the enclosing call as
  its first argument. \<open>if index\<close> tests the group for \<open>None\<close> and for the empty string.
\<close>

definition get_symboldata :: "int \<Rightarrow> string \<Rightarrow> error + SymbolData" where
  "get_symboldata default_index symstr =
     (case SYMBOL_REGEX_fullmatch symstr of
        Some (sy, var, idx) \<Rightarrow>
          Inr \<lparr>symbol = sy, variant = var,
               index = (case idx of
                          None \<Rightarrow> default_index
                        | Some ds \<Rightarrow> if ds \<noteq> [] then py_int ds - 1 else default_index)\<rparr>
      | None \<Rightarrow> Inl (malformed symstr))"

text \<open>The \<open>for\<close> loop over the pieces, appending to \<open>symboldata_list\<close>.\<close>

fun symbols_loop :: "int \<Rightarrow> string list \<Rightarrow> string list \<Rightarrow> SymbolData list \<Rightarrow> error + SymbolData list" where
  "symbols_loop default_index non_symbols [] symboldata_list = Inr symboldata_list"
| "symbols_loop default_index non_symbols (symstr # rest) symboldata_list =
     (case get_symboldata default_index symstr of
        Inl e \<Rightarrow> Inl e
      | Inr symboldata \<Rightarrow>
          if symbol symboldata \<notin> set non_symbols
          then symbols_loop default_index non_symbols rest (symboldata_list @ [symboldata])
          else symbols_loop default_index non_symbols rest symboldata_list)"

text \<open>
  \<open>_parse_symbols(symbols_str, non_symbols, default_index=0)\<close>; the \<open>assert\<close> is an
  \<open>AssertionError\<close> (assertions enabled, as Python runs by default).
\<close>

definition parse_symbols :: "string \<Rightarrow> string list \<Rightarrow> int \<Rightarrow> error + SymbolData list" where
  "parse_symbols symbols_str non_symbols default_index =
     (case symbols_loop default_index non_symbols (str_split CHR ''+'' symbols_str) [] of
        Inl e \<Rightarrow> Inl e
      | Inr symboldata_list \<Rightarrow>
          (let indices = map index symboldata_list
           in if length indices = card (set indices) then Inr symboldata_list
              else Inl AssertionError))"

subsection \<open>The token grammar of the specification\<close>

text \<open>
  The grammar as the specification words it: word characters, optionally followed by
  word characters in parentheses, optionally followed by a colon and digits. A token is
  in the grammar when it is the rendering of such a triple.
\<close>

definition wf_parts :: "string \<Rightarrow> string option \<Rightarrow> string option \<Rightarrow> bool" where
  "wf_parts sy var idx \<longleftrightarrow>
     sy \<noteq> [] \<and> list_all is_word sy
   \<and> (case var of None \<Rightarrow> True | Some v \<Rightarrow> v \<noteq> [] \<and> list_all is_word v)
   \<and> (case idx of None \<Rightarrow> True | Some ds \<Rightarrow> ds \<noteq> [] \<and> list_all is_digit ds)"

definition render :: "string \<Rightarrow> string option \<Rightarrow> string option \<Rightarrow> string" where
  "render sy var idx =
     sy @ (case var of None \<Rightarrow> [] | Some v \<Rightarrow> ''('' @ v @ '')'')
         @ (case idx of None \<Rightarrow> [] | Some ds \<Rightarrow> '':'' @ ds)"

definition token_grammar :: "string \<Rightarrow> bool" where
  "token_grammar t \<longleftrightarrow> (\<exists>sy var idx. wf_parts sy var idx \<and> t = render sy var idx)"

section \<open>xkbgroup.core: the XKeyboard session\<close>

subsection \<open>The X library, as far as the session uses it\<close>

text \<open>
  Modelled from the spec: the constants of the absent module \<open>xkb\<close> (the ctypes
  wrapper of Xlib and XKB); the specification names them without their values, which
  are those of the X11 headers. \<open>NoneAtom\<close> is the null atom \<open>None_\<close>, \<open>NULL\<close> the null pointer.
\<close>

type_synonym ptr = nat

definition NULL :: ptr where "NULL = 0"
definition NoneAtom :: nat where "NoneAtom = 0"
definition Success :: nat where "Success = 0"
definition BadMatch :: nat where "BadMatch = 8"
definition BadAlloc :: nat where "BadAlloc = 11"
definition BadLength :: nat where "BadLength = 16"
definition BadImplementation :: nat where "BadImplementation = 17"
definition XkbOD_Success :: nat where "XkbOD_Success = 0"
definition XkbOD_BadLibraryVersion :: nat where "XkbOD_BadLibraryVersion = 1"
definition XkbOD_ConnectionRefused :: nat where "XkbOD_ConnectionRefused = 2"
definition XkbOD_NonXkbServer :: nat where "XkbOD_NonXkbServer = 3"
definition XkbOD_BadServerVersion :: nat where "XkbOD_BadServerVersion = 4"
definition XkbNumKbdGroups :: nat where "XkbNumKbdGroups = 4"

text \<open>
  Modelled from the spec: the keyboard description of the absent module \<open>xkb\<close>, "an
  opaque snapshot of keyboard state (controls block + names block)". \<open>ctrls\<close> and
  \<open>names\<close> are pointers (the source reads both through \<open>.contents\<close>): \<open>None\<close> is the
  null pointer, \<open>Some b\<close> a pointer to the block \<open>b\<close>. \<open>client_map\<close> says whether the
  map fetched by \<open>XkbGetMap\<close> is still allocated.
\<close>

record XkbControlsRec =
  num_groups :: nat

record XkbNamesRec =
  symbols :: nat
  groups :: "nat list"

record XkbDescRec =
  client_map :: bool
  ctrls :: "XkbControlsRec option"
  names :: "XkbNamesRec option"

text \<open>
  Modelled from the spec: the state of the X library and server that the capabilities of
  the specification's section 6 act on: the connections that are open, the keyboard
  descriptions that are allocated (by address), the requests queued in the library's
  output buffer and the requests that reached the server.
\<close>

record xlib =
  connections :: "ptr set"
  descriptions :: "ptr \<rightharpoonup> XkbDescRec"
  output_buffer :: "(ptr \<times> int) list"
  delivered :: "(ptr \<times> int) list"

text \<open>
  Modelled from the spec: what the server answers during one \<open>open()\<close>:
  \<open>connect(...) -> handle | failureReason\<close> with its four reasons,
  \<open>fetchMap(handle) -> keyboardDescription | null\<close>, and a status code with the block
  fetched for \<open>fetchControls\<close> and \<open>fetchNames\<close>.
\<close>

datatype failureReason =
  IncompatibleLibraryVersion | ConnectionRefused | IncompatibleServerVersion | ExtensionNotPresent

datatype connect_reply = Handle ptr | Failure failureReason

record server_replies =
  connect :: connect_reply
  fetchMap :: ptr
  fetchControls :: "nat \<times> XkbControlsRec"
  fetchNames :: "nat \<times> XkbNamesRec"

fun reason_code :: "failureReason \<Rightarrow> nat" where
  "reason_code IncompatibleLibraryVersion = XkbOD_BadLibraryVersion"
| "reason_code ConnectionRefused = XkbOD_ConnectionRefused"
| "reason_code IncompatibleServerVersion = XkbOD_BadServerVersion"
| "reason_code ExtensionNotPresent = XkbOD_NonXkbServer"

definition update_description :: "ptr \<Rightarrow> (XkbDescRec \<Rightarrow> XkbDescRec) \<Rightarrow> xlib \<Rightarrow> xlib" where
  "update_description k f w =
     (case descriptions w k of
        None \<Rightarrow> w
      | Some d \<Rightarrow> w\<lparr>descriptions := (descriptions w)(k \<mapsto> f d)\<rparr>)"

text \<open>
  Modelled from the spec: the capabilities themselves. Each takes the server's answer
  where there is one, and returns what the C function returns with the new library state.
\<close>

definition XkbIgnoreExtension :: "bool \<Rightarrow> xlib \<Rightarrow> xlib" where
  "XkbIgnoreExtension ignore w = w"

definition XkbOpenDisplay :: "connect_reply \<Rightarrow> xlib \<Rightarrow> (ptr \<times> nat) \<times> xlib" where
  "XkbOpenDisplay reply w =
     (case reply of
        Handle d \<Rightarrow> ((d, XkbOD_Success), w\<lparr>connections := insert d (connections w)\<rparr>)
      | Failure r \<Rightarrow> ((NULL, reason_code r), w))"

definition XkbGetMap :: "ptr \<Rightarrow> ptr \<Rightarrow> xlib \<Rightarrow> ptr \<times> xlib" where
  "XkbGetMap d reply w =
     (if reply = NULL then (NULL, w)
      else (reply, w\<lparr>descriptions :=
                      (descriptions w)(reply \<mapsto> \<lparr>client_map = True, ctrls = None, names = None\<rparr>)\<rparr>))"

definition XkbGetControls :: "ptr \<Rightarrow> ptr \<Rightarrow> nat \<times> XkbControlsRec \<Rightarrow> xlib \<Rightarrow> nat \<times> xlib" where
  "XkbGetControls d k reply w =
     (case reply of
        (status, block) \<Rightarrow>
          if status = Success then (status, update_description k (\<lambda>x. x\<lparr>ctrls := Some block\<rparr>) w)
          else (status, w))"

definition XkbGetNames :: "ptr \<Rightarrow> ptr \<Rightarrow> nat \<times> XkbNamesRec \<Rightarrow> xlib \<Rightarrow> nat \<times> xlib" where
  "XkbGetNames d k reply w =
     (case reply of
        (status, block) \<Rightarrow>
          if status = Success then (status, update_description k (\<lambda>x. x\<lparr>names := Some block\<rparr>) w)
          else (status, w))"

definition XkbFreeNames :: "ptr \<Rightarrow> xlib \<Rightarrow> xlib" where
  "XkbFreeNames k w = update_description k (\<lambda>x. x\<lparr>names := None\<rparr>) w"

definition XkbFreeControls :: "ptr \<Rightarrow> xlib \<Rightarrow> xlib" where
  "XkbFreeControls k w = update_description k (\<lambda>x. x\<lparr>ctrls := None\<rparr>) w"

definition XkbFreeClientMap :: "ptr \<Rightarrow> xlib \<Rightarrow> xlib" where
  "XkbFreeClientMap k w = update_description k (\<lambda>x. x\<lparr>client_map := False\<rparr>) w"

definition XCloseDisplay :: "ptr \<Rightarrow> xlib \<Rightarrow> xlib" where
  "XCloseDisplay d w = w\<lparr>connections := connections w - {d}\<rparr>"

definition XkbLockGroup :: "ptr \<Rightarrow> int \<Rightarrow> bool \<Rightarrow> xlib \<Rightarrow> bool \<times> xlib" where
  "XkbLockGroup d g accepted w =
     (if accepted then (True, w\<lparr>output_buffer := output_buffer w @ [(d, g)]\<rparr>)
      else (False, w))"

definition XFlush :: "ptr \<Rightarrow> xlib \<Rightarrow> xlib" where
  "XFlush d w =
     w\<lparr>output_buffer := filter (\<lambda>r. fst r \<noteq> d) (output_buffer w),
       delivered := delivered w @ filter (\<lambda>r. fst r = d) (output_buffer w)\<rparr>"

text \<open>A keyboard description is released when none of its three parts is allocated.\<close>

definition snapshot_allocated :: "xlib \<Rightarrow> ptr \<Rightarrow> bool" where
  "snapshot_allocated w k =
     (case descriptions w k of
        None \<Rightarrow> False
      | Some d \<Rightarrow> d \<noteq> \<lparr>client_map = False, ctrls = None, names = None\<rparr>)"

subsection \<open>The XKeyboard object\<close>

text \<open>
  The instance attributes the class assigns and deletes: \<open>self._display\<close> and
  \<open>self._keyboard_description\<close>. \<open>None\<close> is an attribute that is not set (never
  assigned, or deleted by \<open>del\<close>); \<open>Some p\<close> is one that holds the ctypes pointer
  \<open>p\<close>, which may be \<open>NULL\<close>. A pointer is true in a condition when it is not \<open>NULL\<close>.
\<close>

record XKeyboard =
  priv_display :: "ptr option"
  priv_keyboard_description :: "ptr option"

definition new_XKeyboard :: XKeyboard where
  "new_XKeyboard = \<lparr>priv_display = None, priv_keyboard_description = None\<rparr>"

text \<open>The methods that the class body of \<open>XKeyboard\<close> defines.\<close>

definition XKeyboard_methods :: "string list" where
  "XKeyboard_methods =
     [''__init__'', ''open_display'', ''close_display'', ''__del__'', ''__enter__'', ''__exit__'',
      ''_get_group_name_by_num'']"

text \<open>
  \<open>hasattr(self, name)\<close> for a name that is not one of the class's properties: the
  name is an instance attribute that is set, or a method of the class. (The class defines
  no \<open>__getattr__\<close>. For the name of a property \<open>hasattr\<close> would run the getter; the
  module asks for \<open>_keyboard_description\<close> and \<open>display\<close> only, and neither is a
  property. The attributes every object inherits have names in double underscores.)
\<close>

definition hasattr :: "XKeyboard \<Rightarrow> string \<Rightarrow> bool" where
  "hasattr self name \<longleftrightarrow>
     (name = ''_display'' \<and> priv_display self \<noteq> None)
   \<or> (name = ''_keyboard_description'' \<and> priv_keyboard_description self \<noteq> None)
   \<or> name \<in> set XKeyboard_methods"

type_synonym 'a outcome = "(error + 'a) \<times> XKeyboard \<times> xlib"

text \<open>
  \<open>close_display\<close>. The first statement frees the three parts of the description and
  deletes the attribute; the second asks \<open>hasattr(self, "display")\<close> before it reads
  \<open>self._display\<close>, which raises \<open>AttributeError\<close> when that attribute is not set.
\<close>

definition close_display :: "XKeyboard \<Rightarrow> xlib \<Rightarrow> unit outcome" where
  "close_display self w =
     (case (case priv_keyboard_description self of
              None \<Rightarrow> (self, w)
            | Some k \<Rightarrow>
                if hasattr self ''_keyboard_description'' \<and> k \<noteq> NULL
                then (self\<lparr>priv_keyboard_description := None\<rparr>,
                      XkbFreeClientMap k (XkbFreeControls k (XkbFreeNames k w)))
                else (self, w)) of
        (self1, w1) \<Rightarrow>
          if hasattr self1 ''display'' then
            (case priv_display self1 of
               None \<Rightarrow> (Inl (AttributeError ''_display''), self1, w1)
             | Some d \<Rightarrow>
                 if d \<noteq> NULL then (Inr (), self1\<lparr>priv_display := None\<rparr>, XCloseDisplay d w1)
                 else (Inr (), self1, w1))
          else (Inr (), self1, w1))"

text \<open>\<open>self.close_display()\<close> followed by \<open>raise\<close>, as the failing steps of \<open>open_display\<close> and the setter of \<open>group_num\<close> do.\<close>

definition close_and_raise :: "error \<Rightarrow> XKeyboard \<Rightarrow> xlib \<Rightarrow> unit outcome" where
  "close_and_raise e self w =
     (case close_display self w of
        (Inl e', self', w') \<Rightarrow> (Inl e', self', w')
      | (Inr u, self', w') \<Rightarrow> (Inl e, self', w'))"

definition OPEN_DISPLAY_ERRORS :: "nat \<rightharpoonup> string" where
  "OPEN_DISPLAY_ERRORS =
     [XkbOD_BadLibraryVersion \<mapsto> ''Compile-time and runtime XKB libraries not compatible'',
      XkbOD_ConnectionRefused \<mapsto> ''Display could not be opened'',
      XkbOD_BadServerVersion \<mapsto> ''Library and server have incompatible XKB versions'',
      XkbOD_NonXkbServer \<mapsto> ''XKB not present in the X server'']"

definition GET_CONTROLS_ERRORS :: "nat \<rightharpoonup> string" where
  "GET_CONTROLS_ERRORS =
     [BadAlloc \<mapsto> ''Unable to allocate storage'',
      BadImplementation \<mapsto> ''Invalid reply from server'',
      BadMatch \<mapsto> ''A compatible version of Xkb was not available in the server or an argument has correct type and range, but is otherwise invalid'']"

definition GET_NAMES_ERRORS :: "nat \<rightharpoonup> string" where
  "GET_NAMES_ERRORS =
     [BadAlloc \<mapsto> ''Unable to allocate storage'',
      BadImplementation \<mapsto> ''Invalid reply from server'',
      BadLength \<mapsto> ''The length of a request is shorter or longer than that required to minimally contain the arguments'',
      BadMatch \<mapsto> ''A compatible version of Xkb was not available in the server or an argument has correct type and range, but is otherwise invalid'']"

text \<open>\<open>X11Error(TABLE[status] + ".")\<close>; a status that is no key of the table is a \<open>KeyError\<close>.\<close>

definition status_error :: "(nat \<rightharpoonup> string) \<Rightarrow> nat \<Rightarrow> error" where
  "status_error table status =
     (case table status of None \<Rightarrow> KeyError | Some msg \<Rightarrow> X11Error (msg @ ''.''))"

text \<open>\<open>open_display\<close>: the four steps, each with its failure branch, in the source's order.\<close>

definition open_display :: "server_replies \<Rightarrow> XKeyboard \<Rightarrow> xlib \<Rightarrow> unit outcome" where
  "open_display replies self w =
     (case close_display self w of
        (Inl e, self0, w0) \<Rightarrow> (Inl e, self0, w0)
      | (Inr u, self0, w0) \<Rightarrow>
          (case XkbOpenDisplay (connect replies) (XkbIgnoreExtension False w0) of
             ((d, reason), w1) \<Rightarrow>
               (let self1 = self0\<lparr>priv_display := Some d\<rparr> in
                if reason \<in> dom OPEN_DISPLAY_ERRORS
                then (Inl (status_error OPEN_DISPLAY_ERRORS reason), self1, w1)
                else
                  (case XkbGetMap d (fetchMap replies) w1 of
                     (k, w2) \<Rightarrow>
                       (let self2 = self1\<lparr>priv_keyboard_description := Some k\<rparr> in
                        if k = NULL
                        then close_and_raise (X11Error ''Failed to get keyboard description.'') self2 w2
                        else
                          (case XkbGetControls d k (fetchControls replies) w2 of
                             (status, w3) \<Rightarrow>
                               if status \<noteq> Success
                               then close_and_raise (status_error GET_CONTROLS_ERRORS status) self2 w3
                               else
                                 (case XkbGetNames d k (fetchNames replies) w3 of
                                    (status', w4) \<Rightarrow>
                                      if status' \<noteq> Success
                                      then close_and_raise (status_error GET_NAMES_ERRORS status') self2 w4
                                      else (Inr (), self2, w4))))))))"

text \<open>\<open>XKeyboard(auto_open)\<close>: a new object, opened when \<open>auto_open\<close> is true.\<close>

definition XKeyboard_init :: "bool \<Rightarrow> server_replies \<Rightarrow> xlib \<Rightarrow> unit outcome" where
  "XKeyboard_init auto_open replies w =
     (if auto_open then open_display replies new_XKeyboard w else (Inr (), new_XKeyboard, w))"

subsection \<open>groups_count\<close>

text \<open>
  The \<open>while\<close> loop of \<open>groups_count\<close>: \<open>groups_source[groups_count]\<close> is read only when
  \<open>groups_count < XkbNumKbdGroups\<close>; an index past the end of the array is an
  \<open>IndexError\<close>.
\<close>

function scan_groups :: "nat list \<Rightarrow> nat \<Rightarrow> error + nat" where
  "scan_groups groups_source groups_count =
     (if groups_count < XkbNumKbdGroups then
        (if groups_count < length groups_source then
           (if groups_source ! groups_count \<noteq> NoneAtom
            then scan_groups groups_source (groups_count + 1)
            else Inr groups_count)
         else Inl IndexError)
      else Inr groups_count)"
  by pat_completeness auto
termination
  by (relation "measure (\<lambda>(groups_source, groups_count). XkbNumKbdGroups - groups_count)") auto

declare scan_groups.simps [simp del]

text \<open>
  \<open>pointer.contents\<close>: a \<open>ValueError\<close> for the null pointer. (An address with no
  description behind it is treated the same way; the session never holds one.)
\<close>

definition contents :: "xlib \<Rightarrow> ptr \<Rightarrow> error + XkbDescRec" where
  "contents w k =
     (if k = NULL then Inl (ValueError ''NULL pointer access'')
      else (case descriptions w k of
              None \<Rightarrow> Inl (ValueError ''NULL pointer access'')
            | Some d \<Rightarrow> Inr d))"

text \<open>
  \<open>p is not None\<close> for the value \<open>p\<close> of a structure field of ctypes pointer type.
  Reading such a field gives a pointer object, for the null pointer too, and a pointer
  object is never Python's \<open>None\<close>: the test is true whatever the pointer is.
\<close>

definition pointer_is_not_None :: "'a option \<Rightarrow> bool" where
  "pointer_is_not_None p = True"

text \<open>
  The getter of \<open>groups_count\<close>, branch by branch. \<open>ctrls.contents\<close> and
  \<open>names.contents\<close> raise \<open>ValueError\<close> for a null pointer.
\<close>

definition groups_count :: "XKeyboard \<Rightarrow> xlib \<Rightarrow> error + nat" where
  "groups_count self w =
     (case priv_keyboard_description self of
        None \<Rightarrow> Inl (AttributeError ''_keyboard_description'')
      | Some k \<Rightarrow>
          (case contents w k of
             Inl e \<Rightarrow> Inl e
           | Inr desc \<Rightarrow>
               if pointer_is_not_None (ctrls desc) then
                 (case ctrls desc of
                    None \<Rightarrow> Inl (ValueError ''NULL pointer access'')
                  | Some c \<Rightarrow> Inr (num_groups c))
               else
                 (case names desc of
                    None \<Rightarrow> Inl (ValueError ''NULL pointer access'')
                  | Some n \<Rightarrow> scan_groups (groups n) 0)))"

subsection \<open>The setter of group_num\<close>

datatype pyvalue = PyInt int | PyStr string | PyNone

text \<open>\<open>_ensure_type(value, int)\<close>.\<close>

definition wrong_type_int :: error where
  "wrong_type_int =
     ValueError (''Wrong value type, must be <class '' @ [CHR 0x27] @ ''int'' @ [CHR 0x27] @ ''>.'')"

definition ensure_type_int :: "pyvalue \<Rightarrow> error + int" where
  "ensure_type_int v =
     (case v of
        PyInt i \<Rightarrow> Inr i
      | PyStr s \<Rightarrow> Inl wrong_type_int
      | PyNone \<Rightarrow> Inl wrong_type_int)"

text \<open>
  \<open>xkb.group_num = value\<close>; \<open>accepted\<close> is the server's answer to the lock request.
\<close>

definition set_group_num :: "pyvalue \<Rightarrow> bool \<Rightarrow> XKeyboard \<Rightarrow> xlib \<Rightarrow> unit outcome" where
  "set_group_num v accepted self w =
     (case ensure_type_int v of
        Inl e \<Rightarrow> (Inl e, self, w)
      | Inr i \<Rightarrow>
          (case priv_display self of
             None \<Rightarrow> (Inl (AttributeError ''_display''), self, w)
           | Some d \<Rightarrow>
               (case XkbLockGroup d i accepted w of
                  (ok, w1) \<Rightarrow>
                    if ok then (Inr (), self, XFlush d w1)
                    else close_and_raise (X11Error ''Failed to set group number.'') self w1)))"

subsection \<open>What the session holds\<close>

text \<open>
  The session holds a connection when \<open>_display\<close> is set to a pointer that is not null,
  and a keyboard description when \<open>_keyboard_description\<close> is.
\<close>

definition holds_connection :: "XKeyboard \<Rightarrow> bool" where
  "holds_connection self = (case priv_display self of None \<Rightarrow> False | Some d \<Rightarrow> d \<noteq> NULL)"

definition holds_description :: "XKeyboard \<Rightarrow> bool" where
  "holds_description self =
     (case priv_keyboard_description self of None \<Rightarrow> False | Some k \<Rightarrow> k \<noteq> NULL)"

text \<open>A library with nothing open, and a server that answers every step of \<open>open()\<close>.\<close>

definition idle_xlib :: xlib where
  "idle_xlib = \<lparr>connections = {}, descriptions = Map.empty, output_buffer = [], delivered = []\<rparr>"

definition good_replies :: server_replies where
  "good_replies =
     \<lparr>connect = Handle 1, fetchMap = 2,
      fetchControls = (Success, \<lparr>num_groups = 2\<rparr>),
      fetchNames = (Success, \<lparr>symbols = 5, groups = [3, 4, 0, 0]\<rparr>)\<rparr>"

text \<open>
  A library state with connection 1 and, at address 2, a keyboard description whose
  controls pointer is null and whose group-name slots are \<open>gs\<close>.
\<close>

definition xlib_with_groups :: "nat list \<Rightarrow> xlib" where
  "xlib_with_groups gs =
     \<lparr>connections = {1},
      descriptions = [2 \<mapsto> \<lparr>client_map = True, ctrls = None,
                             names = Some \<lparr>symbols = 5, groups = gs\<rparr>\<rparr>],
      output_buffer = [], delivered = []\<rparr>"

subsection \<open>The tokens that are kept\<close>

text \<open>
  The records of the tokens that are kept, in the order of the tokens; it is read only
  for tokens that \<open>get_symboldata\<close> accepts.
\<close>

definition retained :: "int \<Rightarrow> string list \<Rightarrow> string list \<Rightarrow> SymbolData list" where
  "retained default_index non_symbols toks =
     filter (\<lambda>r. symbol r \<notin> set non_symbols)
       (map (\<lambda>t. projr (get_symboldata default_index t)) toks)"

section \<open>The parser: SYMBOL_REGEX against the grammar\<close>

lemma delims_not_word:
  "\<not> is_word CHR ''(''" "\<not> is_word CHR '')''" "\<not> is_word CHR '':''" "\<not> is_word CHR ''+''"
  by (simp_all add: is_word_def)

lemma delims_not_digit:
  "\<not> is_digit CHR ''(''" "\<not> is_digit CHR '')''" "\<not> is_digit CHR '':''"
  by (simp_all add: is_digit_def)

lemma takeWhile_all: "list_all P xs \<Longrightarrow> takeWhile P (xs @ ys) = xs @ takeWhile P ys"
  by (simp add: list_all_iff takeWhile_append2)

lemma dropWhile_all: "list_all P xs \<Longrightarrow> dropWhile P (xs @ ys) = dropWhile P ys"
  by (simp add: list_all_iff dropWhile_append2)

lemma list_all_takeWhile: "list_all P (takeWhile P xs)"
  by (induction xs) auto

lemma match_variant_some:
  "v \<noteq> [] \<Longrightarrow> list_all is_word v \<Longrightarrow> match_variant (''('' @ v @ '')'' @ r) = (Some v, r)"
  by (simp add: match_variant_def takeWhile_all dropWhile_all delims_not_word)

lemma match_variant_none:
  "r = [] \<or> hd r \<noteq> CHR ''('' \<Longrightarrow> match_variant r = (None, r)"
  by (cases r) (auto simp: match_variant_def)

lemma match_variant_cases:
  assumes m: "match_variant s = (v, r)"
  shows "(v = None \<and> r = s) \<or>
         (\<exists>x. v = Some x \<and> x \<noteq> [] \<and> list_all is_word x \<and> s = ''('' @ x @ '')'' @ r)"
proof (cases s)
  case Nil
  with m show ?thesis by (simp add: match_variant_def)
next
  case (Cons c t)
  have split_t: "t = takeWhile is_word t @ dropWhile is_word t" by simp
  show ?thesis
  proof (cases "dropWhile is_word t")
    case Nil
    with Cons m show ?thesis
      by (simp add: match_variant_def del: dropWhile_eq_Nil_conv split: if_splits)
  next
    case (Cons c' r')
    show ?thesis
    proof (cases "c = CHR ''('' \<and> takeWhile is_word t \<noteq> [] \<and> c' = CHR '')''")
      case True
      with Cons \<open>s = c # t\<close> m have vr: "v = Some (takeWhile is_word t)" "r = r'"
        by (simp_all add: match_variant_def)
      from split_t Cons True have "t = takeWhile is_word t @ '')'' @ r'" by simp
      with vr True \<open>s = c # t\<close> show ?thesis
        by (simp add: list_all_takeWhile)
    next
      case False
      with Cons \<open>s = c # t\<close> m show ?thesis
        by (auto simp: match_variant_def split: if_splits)
    qed
  qed
qed

lemma takeWhile_id: "list_all P xs \<Longrightarrow> takeWhile P xs = xs"
  by (simp add: list_all_iff)

lemma dropWhile_none: "list_all P xs \<Longrightarrow> dropWhile P xs = []"
  by (simp add: list_all_iff)

lemma match_index_some:
  "ds \<noteq> [] \<Longrightarrow> list_all is_digit ds \<Longrightarrow> match_index ('':'' @ ds) = (Some ds, [])"
  by (simp add: match_index_def takeWhile_id dropWhile_none)

lemma match_index_cases:
  "match_index s = (i, r) \<Longrightarrow>
     (i = None \<and> r = s) \<or> (\<exists>ds. i = Some ds \<and> ds \<noteq> [] \<and> list_all is_digit ds \<and> s = '':'' @ ds @ r)"
  by (cases s) (auto simp: match_index_def list_all_takeWhile split: if_splits)

lemma fullmatch_render:
  assumes "wf_parts sy var idx"
  shows "SYMBOL_REGEX_fullmatch (render sy var idx) = Some (sy, var, idx)"
proof -
  let ?vp = "case var of None \<Rightarrow> [] | Some v \<Rightarrow> ''('' @ v @ '')''"
  let ?ip = "case idx of None \<Rightarrow> [] | Some ds \<Rightarrow> '':'' @ ds"
  from assms have sy: "sy \<noteq> []" "list_all is_word sy" by (simp_all add: wf_parts_def)
  have tw: "takeWhile is_word (?vp @ ?ip) = []"
    by (auto simp: delims_not_word split: option.splits)
  have dw: "dropWhile is_word (?vp @ ?ip) = ?vp @ ?ip"
    by (auto simp: delims_not_word split: option.splits)
  have t: "takeWhile is_word (render sy var idx) = sy"
    using takeWhile_all[OF sy(2), of "?vp @ ?ip"] tw by (simp add: render_def)
  have d: "dropWhile is_word (render sy var idx) = ?vp @ ?ip"
    using dropWhile_all[OF sy(2), of "?vp @ ?ip"] dw by (simp add: render_def)
  have mv: "match_variant (?vp @ ?ip) = (var, ?ip)"
  proof (cases var)
    case None
    then show ?thesis by (auto intro!: match_variant_none split: option.splits)
  next
    case (Some v)
    with assms have "v \<noteq> []" "list_all is_word v" by (simp_all add: wf_parts_def)
    with Some show ?thesis using match_variant_some[of v ?ip] by simp
  qed
  have mi: "match_index ?ip = (idx, [])"
  proof (cases idx)
    case None
    then show ?thesis by (simp add: match_index_def)
  next
    case (Some ds)
    with assms have "ds \<noteq> []" "list_all is_digit ds" by (simp_all add: wf_parts_def)
    with Some show ?thesis using match_index_some[of ds] by simp
  qed
  show ?thesis using sy(1) t d mv mi by (simp add: SYMBOL_REGEX_fullmatch_def)
qed

lemma fullmatch_Some:
  assumes "SYMBOL_REGEX_fullmatch t = Some (sy, var, idx)"
  shows "wf_parts sy var idx \<and> t = render sy var idx"
proof -
  obtain v r2 where mv: "match_variant (dropWhile is_word t) = (v, r2)" by fastforce
  obtain i r3 where mi: "match_index r2 = (i, r3)" by fastforce
  from assms mv mi have ne: "takeWhile is_word t \<noteq> []" and r3: "r3 = []"
    and eqs: "sy = takeWhile is_word t" "var = v" "idx = i"
    by (auto simp: SYMBOL_REGEX_fullmatch_def split: if_splits)
  have t: "t = sy @ dropWhile is_word t" using eqs by simp
  from match_variant_cases[OF mv] match_index_cases[OF mi] r3 eqs ne
  have "wf_parts sy var idx \<and> dropWhile is_word t = (case var of None \<Rightarrow> [] | Some v \<Rightarrow> ''('' @ v @ '')'') @ (case idx of None \<Rightarrow> [] | Some ds \<Rightarrow> '':'' @ ds)"
    by (auto simp: wf_parts_def list_all_takeWhile)
  with t show ?thesis by (simp add: render_def)
qed

lemma fullmatch_iff_grammar: "token_grammar t \<longleftrightarrow> SYMBOL_REGEX_fullmatch t \<noteq> None"
  using fullmatch_render fullmatch_Some by (fastforce simp: token_grammar_def)

section \<open>The parser: the loop and the assertion\<close>

lemmas parse_eval = parse_symbols_def get_symboldata_def SYMBOL_REGEX_fullmatch_def
  match_variant_def match_index_def is_word_def is_digit_def py_int_def malformed_def

lemma digit_value_nonneg: "is_digit c \<Longrightarrow> 0 \<le> int (of_char c) - 48"
  by (simp add: is_digit_def Let_def)

lemma foldl_digits_nonneg:
  "list_all is_digit ds \<Longrightarrow> 0 \<le> acc \<Longrightarrow>
   0 \<le> foldl (\<lambda>acc c. 10 * acc + (int (of_char c) - 48)) acc ds"
proof (induction ds arbitrary: acc)
  case Nil
  then show ?case by simp
next
  case (Cons c ds)
  from Cons.prems have "0 \<le> 10 * acc + (int (of_char c) - 48)"
    using digit_value_nonneg[of c] by simp
  with Cons show ?case by simp
qed

lemma py_int_nonneg: "list_all is_digit ds \<Longrightarrow> 0 \<le> py_int ds"
  by (simp add: py_int_def foldl_digits_nonneg)

lemma get_symboldata_render:
  "wf_parts sy var idx \<Longrightarrow>
   get_symboldata d (render sy var idx) =
     Inr \<lparr>symbol = sy, variant = var,
          index = (case idx of None \<Rightarrow> d | Some ds \<Rightarrow> py_int ds - 1)\<rparr>"
  by (auto simp: get_symboldata_def fullmatch_render wf_parts_def split: option.splits)

lemma get_symboldata_Inr:
  assumes "get_symboldata d t = Inr r"
  shows "\<exists>idx. wf_parts (symbol r) (variant r) idx \<and> t = render (symbol r) (variant r) idx
           \<and> index r = (case idx of None \<Rightarrow> d | Some ds \<Rightarrow> py_int ds - 1)"
proof (cases "SYMBOL_REGEX_fullmatch t")
  case None
  with assms show ?thesis by (simp add: get_symboldata_def)
next
  case (Some m)
  obtain sy var idx where m: "m = (sy, var, idx)" by (cases m)
  from fullmatch_Some Some m have wf: "wf_parts sy var idx" and t: "t = render sy var idx"
    by blast+
  from assms have "r = \<lparr>symbol = sy, variant = var,
      index = (case idx of None \<Rightarrow> d | Some ds \<Rightarrow> py_int ds - 1)\<rparr>"
    using get_symboldata_render[OF wf, of d] t by simp
  with wf t show ?thesis by auto
qed

lemma get_symboldata_Inl:
  "get_symboldata d t = Inl e \<Longrightarrow> e = malformed t \<and> \<not> token_grammar t"
  by (auto simp: get_symboldata_def fullmatch_iff_grammar split: option.splits)

lemma get_symboldata_grammar: "(\<exists>r. get_symboldata d t = Inr r) \<longleftrightarrow> token_grammar t"
  by (auto simp: get_symboldata_def fullmatch_iff_grammar split: option.splits)

lemma get_symboldata_malformed: "\<not> token_grammar t \<Longrightarrow> get_symboldata d t = Inl (malformed t)"
  by (auto simp: get_symboldata_def fullmatch_iff_grammar split: option.splits)

lemma symbols_loop_Inr:
  "symbols_loop d ns toks acc = Inr rs \<Longrightarrow>
     list_all token_grammar toks \<and> rs = acc @ retained d ns toks"
proof (induction toks arbitrary: acc)
  case Nil
  then show ?case by (simp add: retained_def)
next
  case (Cons t toks)
  from Cons.prems obtain r where r: "get_symboldata d t = Inr r"
    by (cases "get_symboldata d t") auto
  then have g: "token_grammar t" using get_symboldata_grammar by blast
  show ?case
  proof (cases "symbol r \<in> set ns")
    case True
    with Cons.prems r have "symbols_loop d ns toks acc = Inr rs" by simp
    from Cons.IH[OF this] g r True show ?thesis by (simp add: retained_def)
  next
    case False
    with Cons.prems r have "symbols_loop d ns toks (acc @ [r]) = Inr rs" by simp
    from Cons.IH[OF this] g r False show ?thesis by (simp add: retained_def)
  qed
qed

lemma symbols_loop_ok:
  "list_all token_grammar toks \<Longrightarrow> symbols_loop d ns toks acc = Inr (acc @ retained d ns toks)"
proof (induction toks arbitrary: acc)
  case Nil
  then show ?case by (simp add: retained_def)
next
  case (Cons t toks)
  then obtain r where r: "get_symboldata d t = Inr r"
    using get_symboldata_grammar[of d t] by auto
  with Cons show ?case by (simp add: retained_def)
qed

lemma symbols_loop_bad:
  "\<not> list_all token_grammar toks \<Longrightarrow>
   \<exists>t\<in>set toks. \<not> token_grammar t \<and> symbols_loop d ns toks acc = Inl (malformed t)"
proof (induction toks arbitrary: acc)
  case Nil
  then show ?case by simp
next
  case (Cons t toks)
  show ?case
  proof (cases "token_grammar t")
    case False
    then show ?thesis by (simp add: get_symboldata_malformed)
  next
    case True
    then obtain r where r: "get_symboldata d t = Inr r"
      using get_symboldata_grammar[of d t] by auto
    from True Cons.prems have "\<not> list_all token_grammar toks" by simp
    from Cons.IH[OF this] r show ?thesis by (cases "symbol r \<in> set ns") auto
  qed
qed

lemma parse_symbols_Inr:
  assumes "parse_symbols s ns d = Inr rs"
  shows "list_all token_grammar (str_split CHR ''+'' s)"
    and "rs = retained d ns (str_split CHR ''+'' s)"
    and "distinct (map index rs)"
proof -
  from assms obtain l where l: "symbols_loop d ns (str_split CHR ''+'' s) [] = Inr l"
    by (cases "symbols_loop d ns (str_split CHR ''+'' s) []") (auto simp: parse_symbols_def)
  with assms have "rs = l" and c: "length (map index l) = card (set (map index l))"
    by (auto simp: parse_symbols_def Let_def split: if_splits)
  with symbols_loop_Inr[OF l] show "list_all token_grammar (str_split CHR ''+'' s)"
    and "rs = retained d ns (str_split CHR ''+'' s)" by simp_all
  from c \<open>rs = l\<close> show "distinct (map index rs)" by (simp add: card_distinct)
qed

lemma parse_symbols_bad:
  "\<not> list_all token_grammar (str_split CHR ''+'' s) \<Longrightarrow>
   \<exists>t\<in>set (str_split CHR ''+'' s). \<not> token_grammar t \<and> parse_symbols s ns d = Inl (malformed t)"
  using symbols_loop_bad[of "str_split CHR ''+'' s" d ns "[]"]
  by (auto simp: parse_symbols_def)

lemma parse_symbols_ok:
  assumes "list_all token_grammar (str_split CHR ''+'' s)"
  shows "parse_symbols s ns d =
     (if distinct (map index (retained d ns (str_split CHR ''+'' s)))
      then Inr (retained d ns (str_split CHR ''+'' s)) else Inl AssertionError)"
proof -
  let ?l = "retained d ns (str_split CHR ''+'' s)"
  have loop: "symbols_loop d ns (str_split CHR ''+'' s) [] = Inr ?l"
    using symbols_loop_ok[OF assms, of d ns "[]"] by simp
  have eq: "(length ?l = card (index ` set ?l)) = distinct (map index ?l)"
    by (metis card_distinct distinct_card length_map list.set_map)
  show ?thesis using eq by (simp add: parse_symbols_def loop Let_def)
qed

lemma retained_append: "retained d ns (xs @ ys) = retained d ns xs @ retained d ns ys"
  by (simp add: retained_def)

lemma retained_Cons:
  "get_symboldata d t = Inr r \<Longrightarrow>
   retained d ns (t # ts) = (if symbol r \<notin> set ns then r # retained d ns ts else retained d ns ts)"
  by (simp add: retained_def)

lemma nth_pair_split:
  assumes "i < j" "j < length xs"
  shows "\<exists>a b c. xs = a @ xs ! i # b @ xs ! j # c"
proof -
  have 1: "xs = take j xs @ xs ! j # drop (Suc j) xs"
    using assms(2) by (rule id_take_nth_drop)
  have "i < length (take j xs)" using assms by simp
  then have "take j xs = take i (take j xs) @ take j xs ! i # drop (Suc i) (take j xs)"
    by (rule id_take_nth_drop)
  with assms have 2: "take j xs = take i (take j xs) @ xs ! i # drop (Suc i) (take j xs)"
    by simp
  show ?thesis using 1 2 by (metis append.assoc append_Cons)
qed

lemma retained_member:
  "list_all token_grammar toks \<Longrightarrow>
   r \<in> set (retained d ns toks) \<longleftrightarrow>
     (\<exists>t\<in>set toks. get_symboldata d t = Inr r \<and> symbol r \<notin> set ns)"
proof (induction toks)
  case Nil
  show ?case by (simp add: retained_def)
next
  case (Cons t toks)
  then obtain r' where r': "get_symboldata d t = Inr r'"
    using get_symboldata_grammar[of d t] by auto
  from Cons have IH: "r \<in> set (retained d ns toks) \<longleftrightarrow>
     (\<exists>t\<in>set toks. get_symboldata d t = Inr r \<and> symbol r \<notin> set ns)" by simp
  show ?case using r' IH by (auto simp: retained_Cons)
qed

lemma retained_duplicate_split:
  assumes "get_symboldata d ti = Inr r1" "get_symboldata d tj = Inr r2"
    and "symbol r1 \<notin> set ns" "symbol r2 \<notin> set ns" "index r1 = index r2"
  shows "\<not> distinct (map index (retained d ns (a @ ti # b @ tj # c)))"
  using assms by (simp add: retained_append retained_Cons)

lemma retained_duplicate:
  assumes "i < j" "j < length toks"
    and "get_symboldata d (toks ! i) = Inr r1" "get_symboldata d (toks ! j) = Inr r2"
    and "symbol r1 \<notin> set ns" "symbol r2 \<notin> set ns" "index r1 = index r2"
  shows "\<not> distinct (map index (retained d ns toks))"
proof -
  from nth_pair_split[OF assms(1,2)] obtain a b c
    where "toks = a @ toks ! i # b @ toks ! j # c" by blast
  then show ?thesis
    using retained_duplicate_split[OF assms(3-7), of a b c] by metis
qed

lemma get_symboldata_symbol: "get_symboldata d t = Inr r \<Longrightarrow> symbol r = takeWhile is_word t"
  by (auto simp: get_symboldata_def SYMBOL_REGEX_fullmatch_def split: option.splits if_splits prod.splits)

lemma retained_symbols:
  "list_all token_grammar toks \<Longrightarrow>
   map symbol (retained d ns toks) = filter (\<lambda>n. n \<notin> set ns) (map (takeWhile is_word) toks)"
proof (induction toks)
  case Nil
  show ?case by (simp add: retained_def)
next
  case (Cons t toks)
  then obtain r where r: "get_symboldata d t = Inr r"
    using get_symboldata_grammar[of d t] by auto
  from Cons have "map symbol (retained d ns toks) =
      filter (\<lambda>n. n \<notin> set ns) (map (takeWhile is_word) toks)" by simp
  with r get_symboldata_symbol[OF r] show ?case by (simp add: retained_Cons)
qed

section \<open>The parser: the claims\<close>

text \<open>
  Claim C4. When two tokens that are kept resolve to the same index, \<open>_parse_symbols\<close>
  fails: with the \<open>AssertionError\<close> of its \<open>assert\<close> when every token matches the
  pattern, with the \<open>X11Error\<close> of a malformed token otherwise. Parsing
  \<open>pc+us:1+ru:1\<close> with \<open>pc\<close> ignored fails; parsing \<open>pc+us:1+ru:2\<close> with \<open>pc\<close>
  ignored gives exactly two records.
\<close>

theorem parse_symbols_duplicate_index_fails:
  "(\<forall>s ns d i j r1 r2.
      i < j \<and> j < length (str_split CHR ''+'' s)
      \<and> get_symboldata d (str_split CHR ''+'' s ! i) = Inr r1
      \<and> get_symboldata d (str_split CHR ''+'' s ! j) = Inr r2
      \<and> symbol r1 \<notin> set ns \<and> symbol r2 \<notin> set ns \<and> index r1 = index r2
      \<longrightarrow> parse_symbols s ns d = Inl AssertionError
          \<or> (\<exists>t\<in>set (str_split CHR ''+'' s). parse_symbols s ns d = Inl (malformed t)))
   \<and> parse_symbols ''pc+us:1+ru:1'' [''pc''] 0 = Inl AssertionError
   \<and> parse_symbols ''pc+us:1+ru:2'' [''pc''] 0 =
       Inr [\<lparr>symbol = ''us'', variant = None, index = 0\<rparr>,
            \<lparr>symbol = ''ru'', variant = None, index = 1\<rparr>]"
proof (intro conjI allI impI)
  fix s ns d i j r1 r2
  assume a: "i < j \<and> j < length (str_split CHR ''+'' s)
      \<and> get_symboldata d (str_split CHR ''+'' s ! i) = Inr r1
      \<and> get_symboldata d (str_split CHR ''+'' s ! j) = Inr r2
      \<and> symbol r1 \<notin> set ns \<and> symbol r2 \<notin> set ns \<and> index r1 = index r2"
  let ?toks = "str_split CHR ''+'' s"
  show "parse_symbols s ns d = Inl AssertionError
          \<or> (\<exists>t\<in>set ?toks. parse_symbols s ns d = Inl (malformed t))"
  proof (cases "list_all token_grammar ?toks")
    case True
    from a have "\<not> distinct (map index (retained d ns ?toks))"
      by (intro retained_duplicate[of i j ?toks d r1 r2 ns]) simp_all
    with parse_symbols_ok[OF True, of ns d] show ?thesis by simp
  next
    case False
    from parse_symbols_bad[OF False, of ns d] show ?thesis by blast
  qed
next
  show "parse_symbols ''pc+us:1+ru:1'' [''pc''] 0 = Inl AssertionError"
    by (simp add: parse_eval)
next
  show "parse_symbols ''pc+us:1+ru:2'' [''pc''] 0 =
       Inr [\<lparr>symbol = ''us'', variant = None, index = 0\<rparr>,
            \<lparr>symbol = ''ru'', variant = None, index = 1\<rparr>]"
    by (simp add: parse_eval)
qed

theorem parse_symbols_duplicate_index_fails_witness:
  "get_symboldata 0 (str_split CHR ''+'' ''pc+us:1+ru:1'' ! 1) = Inr \<lparr>symbol = ''us'', variant = None, index = 0\<rparr>
   \<and> get_symboldata 0 (str_split CHR ''+'' ''pc+us:1+ru:1'' ! 2) = Inr \<lparr>symbol = ''ru'', variant = None, index = 0\<rparr>
   \<and> (\<exists>e. parse_symbols ''pc+us:1+ru:1'' [''pc''] 0 = Inl e)"
proof -
  have 1: "get_symboldata 0 (str_split CHR ''+'' ''pc+us:1+ru:1'' ! 1) = Inr \<lparr>symbol = ''us'', variant = None, index = 0\<rparr>"
    by (simp add: parse_eval)
  have 2: "get_symboldata 0 (str_split CHR ''+'' ''pc+us:1+ru:1'' ! 2) = Inr \<lparr>symbol = ''ru'', variant = None, index = 0\<rparr>"
    by (simp add: parse_eval)
  have 3: "(1::nat) < 2 \<and> 2 < length (str_split CHR ''+'' ''pc+us:1+ru:1'')" by simp
  from parse_symbols_duplicate_index_fails
  have "\<forall>s ns d i j r1 r2.
      i < j \<and> j < length (str_split CHR ''+'' s)
      \<and> get_symboldata d (str_split CHR ''+'' s ! i) = Inr r1
      \<and> get_symboldata d (str_split CHR ''+'' s ! j) = Inr r2
      \<and> symbol r1 \<notin> set ns \<and> symbol r2 \<notin> set ns \<and> index r1 = index r2
      \<longrightarrow> parse_symbols s ns d = Inl AssertionError
          \<or> (\<exists>t\<in>set (str_split CHR ''+'' s). parse_symbols s ns d = Inl (malformed t))"
    by (rule conjunct1)
  from this[rule_format, of 1 2 "''pc+us:1+ru:1''" 0 "\<lparr>symbol = ''us'', variant = None, index = 0\<rparr>" "\<lparr>symbol = ''ru'', variant = None, index = 0\<rparr>" "[''pc'']"] 1 2 3
  have "\<exists>e. parse_symbols ''pc+us:1+ru:1'' [''pc''] 0 = Inl e" by auto
  with 1 2 show ?thesis by blast
qed

text \<open>
  Claim C5. In a successful parse, every token that is kept gives the record with its
  symbol, its variant and the index "suffix minus one" when it has a suffix, the default
  index (the same for every token, never incremented) when it has none; and every record
  of the result comes from a token in this way. \<open>us+ru(phonetic):2+fr:3\<close> gives the
  indices 0, 1 and 2.
\<close>

theorem parse_symbols_index_rule:
  "(\<forall>s ns d rs. parse_symbols s ns d = Inr rs \<longrightarrow>
      (\<forall>sy var idx.
          render sy var idx \<in> set (str_split CHR ''+'' s) \<and> wf_parts sy var idx \<and> sy \<notin> set ns
          \<longrightarrow> \<lparr>symbol = sy, variant = var,
                index = (case idx of None \<Rightarrow> d | Some ds \<Rightarrow> py_int ds - 1)\<rparr> \<in> set rs)
    \<and> (\<forall>r\<in>set rs. \<exists>idx.
          render (symbol r) (variant r) idx \<in> set (str_split CHR ''+'' s)
          \<and> wf_parts (symbol r) (variant r) idx
          \<and> index r = (case idx of None \<Rightarrow> d | Some ds \<Rightarrow> py_int ds - 1)))
   \<and> parse_symbols ''us+ru(phonetic):2+fr:3'' [] 0 =
       Inr [\<lparr>symbol = ''us'', variant = None, index = 0\<rparr>,
            \<lparr>symbol = ''ru'', variant = Some ''phonetic'', index = 1\<rparr>,
            \<lparr>symbol = ''fr'', variant = None, index = 2\<rparr>]"
proof (intro conjI allI impI ballI)
  fix s ns d rs sy var idx
  assume p: "parse_symbols s ns d = Inr rs"
    and t: "render sy var idx \<in> set (str_split CHR ''+'' s) \<and> wf_parts sy var idx \<and> sy \<notin> set ns"
  let ?r = "\<lparr>symbol = sy, variant = var,
              index = (case idx of None \<Rightarrow> d | Some ds \<Rightarrow> py_int ds - 1)\<rparr>"
  from t have "get_symboldata d (render sy var idx) = Inr ?r"
    by (simp add: get_symboldata_render)
  with t have "\<exists>t\<in>set (str_split CHR ''+'' s). get_symboldata d t = Inr ?r \<and> symbol ?r \<notin> set ns"
    by auto
  then show "?r \<in> set rs"
    using parse_symbols_Inr(1,2)[OF p] retained_member[of "str_split CHR ''+'' s" ?r d ns] by simp
next
  fix s ns d rs r
  assume p: "parse_symbols s ns d = Inr rs" and r: "r \<in> set rs"
  from r parse_symbols_Inr(1,2)[OF p] retained_member[of "str_split CHR ''+'' s" r d ns]
  obtain t where t: "t \<in> set (str_split CHR ''+'' s)" "get_symboldata d t = Inr r" by auto
  from get_symboldata_Inr[OF t(2)] t(1)
  show "\<exists>idx. render (symbol r) (variant r) idx \<in> set (str_split CHR ''+'' s)
          \<and> wf_parts (symbol r) (variant r) idx
          \<and> index r = (case idx of None \<Rightarrow> d | Some ds \<Rightarrow> py_int ds - 1)"
    by auto
next
  show "parse_symbols ''us+ru(phonetic):2+fr:3'' [] 0 =
       Inr [\<lparr>symbol = ''us'', variant = None, index = 0\<rparr>,
            \<lparr>symbol = ''ru'', variant = Some ''phonetic'', index = 1\<rparr>,
            \<lparr>symbol = ''fr'', variant = None, index = 2\<rparr>]"
    by (simp add: parse_eval)
qed

theorem parse_symbols_index_rule_witness:
  "parse_symbols ''us+ru(phonetic):2+fr:3'' [] 0 =
       Inr [\<lparr>symbol = ''us'', variant = None, index = 0\<rparr>,
            \<lparr>symbol = ''ru'', variant = Some ''phonetic'', index = 1\<rparr>,
            \<lparr>symbol = ''fr'', variant = None, index = 2\<rparr>]
   \<and> render ''ru'' (Some ''phonetic'') (Some ''2'') \<in> set (str_split CHR ''+'' ''us+ru(phonetic):2+fr:3'')
   \<and> wf_parts ''ru'' (Some ''phonetic'') (Some ''2'')
   \<and> \<lparr>symbol = ''ru'', variant = Some ''phonetic'', index = py_int ''2'' - 1\<rparr>
        \<in> set [\<lparr>symbol = ''us'', variant = None, index = 0\<rparr>,
                \<lparr>symbol = ''ru'', variant = Some ''phonetic'', index = 1\<rparr>,
                \<lparr>symbol = ''fr'', variant = None, index = 2\<rparr>]
   \<and> render ''us'' None None \<in> set (str_split CHR ''+'' ''us+ru(phonetic):2+fr:3'')
   \<and> wf_parts ''us'' None None
   \<and> \<lparr>symbol = ''us'', variant = None, index = 0\<rparr>
        \<in> set [\<lparr>symbol = ''us'', variant = None, index = 0\<rparr>,
                \<lparr>symbol = ''ru'', variant = Some ''phonetic'', index = 1\<rparr>,
                \<lparr>symbol = ''fr'', variant = None, index = 2\<rparr>]"
proof -
  let ?s = "''us+ru(phonetic):2+fr:3''"
  let ?rs = "[\<lparr>symbol = ''us'', variant = None, index = 0\<rparr>,
              \<lparr>symbol = ''ru'', variant = Some ''phonetic'', index = 1\<rparr>,
              \<lparr>symbol = ''fr'', variant = None, index = 2::int\<rparr>]"
  have p: "parse_symbols ?s [] 0 = Inr ?rs"
    using parse_symbols_index_rule by (rule conjunct2)
  have g: "\<forall>s ns d rs. parse_symbols s ns d = Inr rs \<longrightarrow>
      (\<forall>sy var idx.
          render sy var idx \<in> set (str_split CHR ''+'' s) \<and> wf_parts sy var idx \<and> sy \<notin> set ns
          \<longrightarrow> \<lparr>symbol = sy, variant = var,
                index = (case idx of None \<Rightarrow> d | Some ds \<Rightarrow> py_int ds - 1)\<rparr> \<in> set rs)"
    using parse_symbols_index_rule by blast
  have ru: "render ''ru'' (Some ''phonetic'') (Some ''2'') \<in> set (str_split CHR ''+'' ?s)"
    by (simp add: render_def)
  have ruw: "wf_parts ''ru'' (Some ''phonetic'') (Some ''2'')"
    by (simp add: wf_parts_def is_word_def is_digit_def)
  have us: "render ''us'' None None \<in> set (str_split CHR ''+'' ?s)"
    by (simp add: render_def)
  have usw: "wf_parts ''us'' None None"
    by (simp add: wf_parts_def is_word_def)
  from g p ru ruw
  have 1: "\<lparr>symbol = ''ru'', variant = Some ''phonetic'', index = py_int ''2'' - 1\<rparr> \<in> set ?rs"
    by fastforce
  from g p us usw
  have 2: "\<lparr>symbol = ''us'', variant = None, index = 0\<rparr> \<in> set ?rs"
    by fastforce
  from p ru ruw us usw 1 2 show ?thesis by blast
qed

text \<open>
  Claim C6, as stated, fails: a token with the suffix \<open>:0\<close> is accepted and gets the
  index \<open>-1\<close>.
\<close>

theorem parse_symbols_index_counterexample:
  "parse_symbols ''us:0'' [] 0 = Inr [\<lparr>symbol = ''us'', variant = None, index = - 1\<rparr>]"
  by (simp add: parse_eval)

text \<open>
  Claim C6, amended. Every record of a successful parse (default index 0) has an index of
  at least \<open>-1\<close>, and a negative index only when its token carries a suffix whose value
  is 0.
\<close>

theorem parse_symbols_index_lower_bound:
  "\<forall>s ns rs. parse_symbols s ns 0 = Inr rs \<longrightarrow>
     (\<forall>r\<in>set rs. - 1 \<le> index r
        \<and> (index r < 0 \<longrightarrow>
             (\<exists>ds. render (symbol r) (variant r) (Some ds) \<in> set (str_split CHR ''+'' s)
                   \<and> wf_parts (symbol r) (variant r) (Some ds) \<and> py_int ds = 0)))"
proof (intro allI impI ballI)
  fix s ns rs r
  assume p: "parse_symbols s ns 0 = Inr rs" and r: "r \<in> set rs"
  from r parse_symbols_Inr(1,2)[OF p] retained_member[of "str_split CHR ''+'' s" r 0 ns]
  obtain t where t: "t \<in> set (str_split CHR ''+'' s)" "get_symboldata 0 t = Inr r" by auto
  from get_symboldata_Inr[OF t(2)] obtain idx
    where wf: "wf_parts (symbol r) (variant r) idx"
      and tr: "t = render (symbol r) (variant r) idx"
      and ix: "index r = (case idx of None \<Rightarrow> 0 | Some ds \<Rightarrow> py_int ds - 1)" by blast
  show "- 1 \<le> index r
        \<and> (index r < 0 \<longrightarrow>
             (\<exists>ds. render (symbol r) (variant r) (Some ds) \<in> set (str_split CHR ''+'' s)
                   \<and> wf_parts (symbol r) (variant r) (Some ds) \<and> py_int ds = 0))"
  proof (cases idx)
    case None
    with ix show ?thesis by simp
  next
    case (Some ds)
    with wf have "0 \<le> py_int ds" by (simp add: wf_parts_def py_int_nonneg)
    with Some ix wf tr t(1) show ?thesis by auto
  qed
qed

theorem parse_symbols_index_lower_bound_witness:
  "parse_symbols ''us:0+ru:2'' [] 0 =
      Inr [\<lparr>symbol = ''us'', variant = None, index = - 1\<rparr>,
           \<lparr>symbol = ''ru'', variant = None, index = 1\<rparr>]
   \<and> (\<exists>ds. render ''us'' None (Some ds) \<in> set (str_split CHR ''+'' ''us:0+ru:2'')
           \<and> wf_parts ''us'' None (Some ds) \<and> py_int ds = 0)"
proof -
  have p: "parse_symbols ''us:0+ru:2'' [] 0 =
      Inr [\<lparr>symbol = ''us'', variant = None, index = - 1\<rparr>,
           \<lparr>symbol = ''ru'', variant = None, index = 1\<rparr>]"
    by (simp add: parse_eval)
  from parse_symbols_index_lower_bound p
  have "\<forall>r\<in>set [\<lparr>symbol = ''us'', variant = None, index = - 1\<rparr>,
           \<lparr>symbol = ''ru'', variant = None, index = 1::int\<rparr>]. - 1 \<le> index r
        \<and> (index r < 0 \<longrightarrow>
             (\<exists>ds. render (symbol r) (variant r) (Some ds) \<in> set (str_split CHR ''+'' ''us:0+ru:2'')
                   \<and> wf_parts (symbol r) (variant r) (Some ds) \<and> py_int ds = 0))"
    by blast
  then have "\<exists>ds. render ''us'' None (Some ds) \<in> set (str_split CHR ''+'' ''us:0+ru:2'')
           \<and> wf_parts ''us'' None (Some ds) \<and> py_int ds = 0"
    by simp
  with p show ?thesis by blast
qed

text \<open>
  Claim C7. In a successful parse no record has a symbol of the ignored set, and the
  records are those of the other tokens in the order of the input: the list of their
  symbols is the list of the tokens' leading identifiers with the ignored ones filtered
  out. \<open>pc+inet+us+ru(phonetic):2\<close> with \<open>pc\<close> and \<open>inet\<close> ignored gives exactly the
  records of \<open>us\<close> (no variant, index 0) and \<open>ru\<close> (variant \<open>phonetic\<close>, index 1).
\<close>

theorem parse_symbols_ignores_non_symbols:
  "(\<forall>s ns d rs. parse_symbols s ns d = Inr rs \<longrightarrow>
       (\<forall>r\<in>set rs. symbol r \<notin> set ns)
     \<and> rs = retained d ns (str_split CHR ''+'' s)
     \<and> map symbol rs =
         filter (\<lambda>n. n \<notin> set ns) (map (takeWhile is_word) (str_split CHR ''+'' s)))
   \<and> parse_symbols ''pc+inet+us+ru(phonetic):2'' [''pc'', ''inet''] 0 =
       Inr [\<lparr>symbol = ''us'', variant = None, index = 0\<rparr>,
            \<lparr>symbol = ''ru'', variant = Some ''phonetic'', index = 1\<rparr>]"
proof (intro conjI allI impI)
  fix s ns d rs
  assume p: "parse_symbols s ns d = Inr rs"
  note P = parse_symbols_Inr(1,2)[OF p]
  from P(2) show "\<forall>r\<in>set rs. symbol r \<notin> set ns" by (simp add: retained_def)
  from P(2) show "rs = retained d ns (str_split CHR ''+'' s)" .
  from P show "map symbol rs =
         filter (\<lambda>n. n \<notin> set ns) (map (takeWhile is_word) (str_split CHR ''+'' s))"
    by (simp add: retained_symbols)
next
  show "parse_symbols ''pc+inet+us+ru(phonetic):2'' [''pc'', ''inet''] 0 =
       Inr [\<lparr>symbol = ''us'', variant = None, index = 0\<rparr>,
            \<lparr>symbol = ''ru'', variant = Some ''phonetic'', index = 1\<rparr>]"
    by (simp add: parse_eval)
qed

theorem parse_symbols_ignores_non_symbols_witness:
  "parse_symbols ''pc+inet+us+ru(phonetic):2'' [''pc'', ''inet''] 0 =
       Inr [\<lparr>symbol = ''us'', variant = None, index = 0\<rparr>,
            \<lparr>symbol = ''ru'', variant = Some ''phonetic'', index = 1\<rparr>]
   \<and> [''us'', ''ru''] =
       filter (\<lambda>n. n \<notin> set [''pc'', ''inet''])
         (map (takeWhile is_word) (str_split CHR ''+'' ''pc+inet+us+ru(phonetic):2''))"
proof -
  let ?rs = "[\<lparr>symbol = ''us'', variant = None, index = 0::int\<rparr>,
              \<lparr>symbol = ''ru'', variant = Some ''phonetic'', index = 1\<rparr>]"
  have p: "parse_symbols ''pc+inet+us+ru(phonetic):2'' [''pc'', ''inet''] 0 = Inr ?rs"
    using parse_symbols_ignores_non_symbols by (rule conjunct2)
  from parse_symbols_ignores_non_symbols p
  have "map symbol ?rs =
         filter (\<lambda>n. n \<notin> set [''pc'', ''inet''])
           (map (takeWhile is_word) (str_split CHR ''+'' ''pc+inet+us+ru(phonetic):2''))"
    by blast
  then have "[''us'', ''ru''] =
       filter (\<lambda>n. n \<notin> set [''pc'', ''inet''])
         (map (takeWhile is_word) (str_split CHR ''+'' ''pc+inet+us+ru(phonetic):2''))"
    by (simp only: list.map SymbolData.simps)
  with p show ?thesis by blast
qed

text \<open>
  Claim C8. \<open>get_symboldata\<close> accepts exactly the tokens of the grammar (the pattern
  must consume the whole token), and \<open>_parse_symbols\<close> fails with the \<open>X11Error\<close> of a
  malformed token whenever some token, ignored or not, is outside the grammar;
  \<open>us)(bad\<close> is rejected.
\<close>

theorem parse_symbols_rejects_malformed:
  "(\<forall>d t. (\<exists>r. get_symboldata d t = Inr r) = token_grammar t)
   \<and> (\<forall>s ns d. (\<exists>t\<in>set (str_split CHR ''+'' s). \<not> token_grammar t) \<longrightarrow>
         (\<exists>t\<in>set (str_split CHR ''+'' s).
             \<not> token_grammar t \<and> parse_symbols s ns d = Inl (malformed t)))
   \<and> parse_symbols ''us)(bad'' [] 0 = Inl (malformed ''us)(bad'')"
proof (intro conjI allI impI)
  fix d t
  show "(\<exists>r. get_symboldata d t = Inr r) = token_grammar t"
    by (rule get_symboldata_grammar)
next
  fix s ns d
  assume "\<exists>t\<in>set (str_split CHR ''+'' s). \<not> token_grammar t"
  then have "\<not> list_all token_grammar (str_split CHR ''+'' s)"
    by (simp add: list_all_iff)
  then show "\<exists>t\<in>set (str_split CHR ''+'' s).
             \<not> token_grammar t \<and> parse_symbols s ns d = Inl (malformed t)"
    by (rule parse_symbols_bad)
next
  show "parse_symbols ''us)(bad'' [] 0 = Inl (malformed ''us)(bad'')"
    by (simp add: parse_eval)
qed

theorem parse_symbols_rejects_malformed_witness:
  "\<not> token_grammar ''us)(bad''
   \<and> (\<exists>t\<in>set (str_split CHR ''+'' ''pc+us)(bad''). parse_symbols ''pc+us)(bad'' [''pc''] 0 = Inl (malformed t))"
proof -
  have "SYMBOL_REGEX_fullmatch ''us)(bad'' = None"
    by (simp add: SYMBOL_REGEX_fullmatch_def match_variant_def match_index_def is_word_def)
  then have n: "\<not> token_grammar ''us)(bad''" by (simp add: fullmatch_iff_grammar)
  then have "\<exists>t\<in>set (str_split CHR ''+'' ''pc+us)(bad''). \<not> token_grammar t" by simp
  with parse_symbols_rejects_malformed
  have "\<exists>t\<in>set (str_split CHR ''+'' ''pc+us)(bad'').
             \<not> token_grammar t \<and> parse_symbols ''pc+us)(bad'' [''pc''] 0 = Inl (malformed t)"
    by blast
  with n show ?thesis by blast
qed

section \<open>The session: close_display and open_display\<close>

lemmas xlib_eval = XkbOpenDisplay_def XkbGetMap_def XkbGetControls_def XkbGetNames_def
  XkbFreeNames_def XkbFreeControls_def XkbFreeClientMap_def XCloseDisplay_def
  XkbIgnoreExtension_def XkbLockGroup_def XFlush_def update_description_def
  NULL_def Success_def XkbOD_Success_def XkbOD_BadLibraryVersion_def
  XkbOD_ConnectionRefused_def XkbOD_NonXkbServer_def XkbOD_BadServerVersion_def
  BadAlloc_def BadMatch_def BadLength_def BadImplementation_def

lemmas session_eval = open_display_def close_display_def close_and_raise_def hasattr_def
  XKeyboard_methods_def XKeyboard_init_def set_group_num_def ensure_type_int_def
  OPEN_DISPLAY_ERRORS_def GET_CONTROLS_ERRORS_def GET_NAMES_ERRORS_def status_error_def
  holds_connection_def holds_description_def snapshot_allocated_def
  idle_xlib_def good_replies_def new_XKeyboard_def

lemma hasattr_display: "\<not> hasattr self ''display''"
  by (simp add: hasattr_def XKeyboard_methods_def)

lemma hasattr_keyboard_description:
  "hasattr self ''_keyboard_description'' \<longleftrightarrow> priv_keyboard_description self \<noteq> None"
  by (simp add: hasattr_def XKeyboard_methods_def)

lemma close_display_eq:
  "close_display self w =
     (case priv_keyboard_description self of
        None \<Rightarrow> (Inr (), self, w)
      | Some k \<Rightarrow>
          if k \<noteq> NULL
          then (Inr (), self\<lparr>priv_keyboard_description := None\<rparr>,
                XkbFreeClientMap k (XkbFreeControls k (XkbFreeNames k w)))
          else (Inr (), self, w))"
  by (simp add: close_display_def hasattr_display hasattr_keyboard_description
      split: option.splits)

lemma close_display_never_fails: "fst (close_display self w) = Inr ()"
  by (simp add: close_display_eq split: option.splits)

lemma free_keeps_connections:
  "connections (XkbFreeClientMap k (XkbFreeControls k (XkbFreeNames k w))) = connections w"
  by (simp add: XkbFreeClientMap_def XkbFreeControls_def XkbFreeNames_def update_description_def
      split: option.splits)

lemma close_display_keeps_connection:
  "connections (snd (snd (close_display self w))) = connections w"
  "priv_display (fst (snd (close_display self w))) = priv_display self"
  by (simp_all add: close_display_eq free_keeps_connections split: option.splits)

lemma close_display_releases_description:
  "\<not> holds_description (fst (snd (close_display self w)))"
  by (simp add: close_display_eq holds_description_def split: option.splits)

lemma close_display_idempotent:
  "close_display (fst (snd (close_display self w))) (snd (snd (close_display self w)))
     = close_display self w"
  by (simp add: close_display_eq split: option.splits)

lemma scan_groups_eq:
  "XkbNumKbdGroups \<le> length src \<or> NoneAtom \<in> set (drop n src) \<Longrightarrow>
   scan_groups src n =
     Inr (n + length (takeWhile (\<lambda>a. a \<noteq> NoneAtom) (take (XkbNumKbdGroups - n) (drop n src))))"
proof (induction src n rule: scan_groups.induct)
  case (1 src n)
  show ?case
  proof (cases "n < XkbNumKbdGroups")
    case False
    then show ?thesis by (simp add: scan_groups.simps[of src n])
  next
    case True
    have len: "n < length src"
    proof (rule ccontr)
      assume "\<not> n < length src"
      with True "1.prems" show False by auto
    qed
    then have d: "drop n src = src ! n # drop (Suc n) src"
      by (simp add: Cons_nth_drop_Suc)
    from True obtain m where m: "XkbNumKbdGroups - n = Suc m" "XkbNumKbdGroups - (n + 1) = m"
      by (cases "XkbNumKbdGroups - n") auto
    show ?thesis
    proof (cases "src ! n = NoneAtom")
      case T: True
      with True len d m show ?thesis by (simp add: scan_groups.simps[of src n])
    next
      case F: False
      from "1.prems" d F have "XkbNumKbdGroups \<le> length src \<or> NoneAtom \<in> set (drop (n + 1) src)"
        by auto
      from "1.IH"[OF True len F this] True len d m F show ?thesis
        by (simp add: scan_groups.simps[of src n])
    qed
  qed
qed

lemma set_group_num_accepted:
  "priv_display self = Some d \<Longrightarrow>
   set_group_num (PyInt i) True self w =
     (Inr (), self,
      w\<lparr>output_buffer := filter (\<lambda>r. fst r \<noteq> d) (output_buffer w),
        delivered := delivered w @ filter (\<lambda>r. fst r = d) (output_buffer w) @ [(d, i)]\<rparr>)"
  by (simp add: set_group_num_def ensure_type_int_def XkbLockGroup_def XFlush_def)

lemma open_display_keeps_connections:
  "connections w \<subseteq> connections (snd (snd (open_display replies self w)))"
proof -
  have c: "connections (snd (snd (close_and_raise e s x))) = connections x" for e s x
  proof -
    obtain s' x' where cd': "close_display s x = (Inr (), s', x')"
      using close_display_never_fails[of s x] by (cases "close_display s x") auto
    then have "connections x' = connections x"
      using close_display_keeps_connection(1)[of s x] by simp
    with cd' show ?thesis by (simp add: close_and_raise_def)
  qed
  have u: "\<And>k f x. connections (update_description k f x) = connections x"
    by (simp add: update_description_def split: option.splits)
  obtain s0 w0 where cd: "close_display self w = (Inr (), s0, w0)"
    using close_display_never_fails[of self w] by (cases "close_display self w") auto
  then have w0: "connections w0 = connections w"
    using close_display_keeps_connection(1)[of self w] by simp
  show ?thesis
    unfolding open_display_def cd
    by (auto simp: c u w0 XkbOpenDisplay_def XkbIgnoreExtension_def XkbGetMap_def
        XkbGetControls_def XkbGetNames_def Let_def split: connect_reply.splits prod.splits)
qed

lemma scan_groups_examples:
  "scan_groups [3, 0, 0, 0] 0 = Inr 1"
  "scan_groups [3, 4, 5, 6] 0 = Inr 4"
  "scan_groups [3, 4, 0, 6] 0 = Inr 2"
  by (simp_all add: scan_groups_eq XkbNumKbdGroups_def NoneAtom_def)

lemma reason_code_is_error: "reason_code r \<in> dom OPEN_DISPLAY_ERRORS"
  by (cases r) (simp_all add: OPEN_DISPLAY_ERRORS_def)

lemma Success_no_open_error: "XkbOD_Success \<notin> dom OPEN_DISPLAY_ERRORS"
  by (simp add: OPEN_DISPLAY_ERRORS_def xlib_eval)

lemma close_and_raise_fails: "fst (close_and_raise e s x) \<noteq> Inr ()"
proof -
  obtain s' x' where "close_display s x = (Inr (), s', x')"
    using close_display_never_fails[of s x] by (cases "close_display s x") auto
  then show ?thesis by (simp add: close_and_raise_def)
qed

lemma close_and_raise_not_ok: "close_and_raise e s x \<noteq> (Inr (), s', x')"
  using close_and_raise_fails[of e s x] by auto

lemma open_display_groups_count:
  assumes ok: "open_display replies self w = (Inr (), self', w')"
  shows "groups_count self' w' = Inr (num_groups (snd (fetchControls replies)))"
proof -
  obtain s0 w0 where cd: "close_display self w = (Inr (), s0, w0)"
    using close_display_never_fails[of self w] by (cases "close_display self w") auto
  obtain cs cb where fc: "fetchControls replies = (cs, cb)" by (cases "fetchControls replies")
  obtain ns nb where fn: "fetchNames replies = (ns, nb)" by (cases "fetchNames replies")
  let ?k = "fetchMap replies"
  show ?thesis
  proof (cases "connect replies")
    case (Failure r)
    with ok cd reason_code_is_error[of r] have False
      by (simp add: open_display_def XkbOpenDisplay_def XkbIgnoreExtension_def Let_def)
    then show ?thesis ..
  next
    case (Handle d)
    let ?w1 = "w0\<lparr>connections := insert d (connections w0)\<rparr>"
    let ?s1 = "s0\<lparr>priv_display := Some d\<rparr>"
    have o1: "open_display replies self w =
        (case XkbGetMap d ?k ?w1 of
           (k, w2) \<Rightarrow>
             (let self2 = ?s1\<lparr>priv_keyboard_description := Some k\<rparr> in
              if k = NULL
              then close_and_raise (X11Error ''Failed to get keyboard description.'') self2 w2
              else
                (case XkbGetControls d k (fetchControls replies) w2 of
                   (status, w3) \<Rightarrow>
                     if status \<noteq> Success
                     then close_and_raise (status_error GET_CONTROLS_ERRORS status) self2 w3
                     else
                       (case XkbGetNames d k (fetchNames replies) w3 of
                          (status', w4) \<Rightarrow>
                            if status' \<noteq> Success
                            then close_and_raise (status_error GET_NAMES_ERRORS status') self2 w4
                            else (Inr (), self2, w4)))))"
      using Success_no_open_error
      by (simp add: open_display_def cd Handle XkbOpenDisplay_def XkbIgnoreExtension_def Let_def)
    have k: "?k \<noteq> NULL"
    proof
      assume "?k = NULL"
      with o1 have "open_display replies self w =
          close_and_raise (X11Error ''Failed to get keyboard description.'')
            (?s1\<lparr>priv_keyboard_description := Some NULL\<rparr>) ?w1"
        by (simp add: XkbGetMap_def Let_def)
      with ok show False by (simp add: close_and_raise_not_ok)
    qed
    let ?w2 = "?w1\<lparr>descriptions :=
        (descriptions ?w1)(?k \<mapsto> \<lparr>client_map = True, ctrls = None, names = None\<rparr>)\<rparr>"
    let ?s2 = "?s1\<lparr>priv_keyboard_description := Some ?k\<rparr>"
    have o2: "open_display replies self w =
        (if cs \<noteq> Success
         then close_and_raise (status_error GET_CONTROLS_ERRORS cs) ?s2 ?w2
         else
           (case XkbGetNames d ?k (ns, nb)
                   (update_description ?k (\<lambda>x. x\<lparr>ctrls := Some cb\<rparr>) ?w2) of
              (status', w4) \<Rightarrow>
                if status' \<noteq> Success
                then close_and_raise (status_error GET_NAMES_ERRORS status') ?s2 w4
                else (Inr (), ?s2, w4)))"
      using k by (simp add: o1 XkbGetMap_def Let_def fc fn XkbGetControls_def)
    have cs: "cs = Success"
    proof (rule ccontr)
      assume "cs \<noteq> Success"
      with o2 have "open_display replies self w =
          close_and_raise (status_error GET_CONTROLS_ERRORS cs) ?s2 ?w2"
        by simp
      with ok show False by (simp add: close_and_raise_not_ok)
    qed
    let ?w3 = "update_description ?k (\<lambda>x. x\<lparr>ctrls := Some cb\<rparr>) ?w2"
    have o3: "open_display replies self w =
        (if ns \<noteq> Success
         then close_and_raise (status_error GET_NAMES_ERRORS ns) ?s2 ?w3
         else (Inr (), ?s2, update_description ?k (\<lambda>x. x\<lparr>names := Some nb\<rparr>) ?w3))"
      using cs by (simp add: o2 XkbGetNames_def)
    have ns: "ns = Success"
    proof (rule ccontr)
      assume "ns \<noteq> Success"
      with o3 have "open_display replies self w =
          close_and_raise (status_error GET_NAMES_ERRORS ns) ?s2 ?w3"
        by simp
      with ok show False by (simp add: close_and_raise_not_ok)
    qed
    from o3 ns ok have res: "self' = ?s2"
      "w' = update_description ?k (\<lambda>x. x\<lparr>names := Some nb\<rparr>) ?w3"
      by simp_all
    have "descriptions w' ?k = Some \<lparr>client_map = True, ctrls = Some cb, names = Some nb\<rparr>"
      unfolding res by (simp add: update_description_def)
    with k res(1) show ?thesis
      by (simp add: groups_count_def contents_def pointer_is_not_None_def fc)
  qed
qed

section \<open>The session: the claims\<close>

text \<open>
  Claim C1 (rollback of a failed \<open>open()\<close>). The code releases the keyboard description
  on every failing step, but not the connection: \<open>close_display\<close> asks
  \<open>hasattr(self, "display")\<close>, a name the object never has, where the attribute is
  \<open>_display\<close>, so \<open>XCloseDisplay\<close> is never called. Evaluated on a new session: when
  the map fetch returns null, when the controls fetch returns \<open>BadAlloc\<close> and when the
  names fetch returns \<open>BadLength\<close>, the error is raised with connection 1 still open
  and \<open>_display\<close> still set. After the failed controls fetch a \<open>close()\<close> changes
  nothing and leaves connection 1 open, and a second \<open>open()\<close> ends with the connections
  1 and 3 open, where a first open ends with 3 alone.
\<close>

theorem open_display_failure_keeps_connection:
  "(case open_display (good_replies\<lparr>fetchMap := NULL\<rparr>) new_XKeyboard idle_xlib of
      (r, self1, w1) \<Rightarrow>
        r = Inl (X11Error ''Failed to get keyboard description.'')
        \<and> priv_display self1 = Some 1 \<and> holds_connection self1 \<and> connections w1 = {1})
   \<and> (case open_display (good_replies\<lparr>fetchControls := (BadAlloc, \<lparr>num_groups = 0\<rparr>)\<rparr>)
              new_XKeyboard idle_xlib of
      (r, self1, w1) \<Rightarrow>
        r = Inl (X11Error ''Unable to allocate storage.'')
        \<and> \<not> holds_description self1 \<and> \<not> snapshot_allocated w1 2
        \<and> priv_display self1 = Some 1 \<and> holds_connection self1 \<and> connections w1 = {1}
        \<and> (case close_display self1 w1 of
              (r', self2, w2) \<Rightarrow> r' = Inr () \<and> self2 = self1 \<and> connections w2 = {1})
        \<and> (case open_display (good_replies\<lparr>connect := Handle 3\<rparr>) self1 w1 of
              (r', self2, w2) \<Rightarrow>
                r' = Inr () \<and> priv_display self2 = Some 3 \<and> connections w2 = {1, 3}))
   \<and> (case open_display (good_replies\<lparr>fetchNames := (BadLength, \<lparr>symbols = 0, groups = []\<rparr>)\<rparr>)
              new_XKeyboard idle_xlib of
      (r, self1, w1) \<Rightarrow>
        r = Inl (X11Error ''The length of a request is shorter or longer than that required to minimally contain the arguments.'')
        \<and> \<not> holds_description self1 \<and> \<not> snapshot_allocated w1 2
        \<and> priv_display self1 = Some 1 \<and> holds_connection self1 \<and> connections w1 = {1})
   \<and> (case open_display (good_replies\<lparr>connect := Handle 3\<rparr>) new_XKeyboard idle_xlib of
      (r, self1, w1) \<Rightarrow> r = Inr () \<and> priv_display self1 = Some 3 \<and> connections w1 = {3})"
  by (simp add: session_eval xlib_eval insert_commute)

text \<open>
  Claim C2 (description held iff connection held). The pairing is broken by \<open>close()\<close>:
  after \<open>XKeyboard(auto_open=True)\<close> the session holds both, and after \<open>close_display\<close>
  it holds the connection without the description, for the reason given at claim C1.
\<close>

theorem close_display_breaks_pairing:
  "(case XKeyboard_init True good_replies idle_xlib of
      (r, self1, w1) \<Rightarrow>
        r = Inr () \<and> holds_connection self1 \<and> holds_description self1
        \<and> (case close_display self1 w1 of
              (r', self2, w2) \<Rightarrow>
                r' = Inr () \<and> holds_connection self2 \<and> \<not> holds_description self2))"
  by (simp add: session_eval xlib_eval)

text \<open>
  Claim C3 (\<open>close()\<close> releases the snapshot, then the connection). \<open>close_display\<close>
  never fails and is idempotent (lemmas \<open>close_display_never_fails\<close> and
  \<open>close_display_idempotent\<close>), and it releases the description; but in no state does it
  close a connection or delete \<open>_display\<close>. Evaluated on the session opened by
  \<open>open_display\<close>: the description at address 2 is released, connection 1 stays open,
  and a second \<open>close_display\<close> changes nothing.
\<close>

theorem close_display_never_closes_connection:
  "(\<forall>self w. connections (snd (snd (close_display self w))) = connections w
            \<and> priv_display (fst (snd (close_display self w))) = priv_display self)
   \<and> (case open_display good_replies new_XKeyboard idle_xlib of
        (r, self1, w1) \<Rightarrow>
          r = Inr () \<and> priv_display self1 = Some 1 \<and> priv_keyboard_description self1 = Some 2
          \<and> connections w1 = {1} \<and> snapshot_allocated w1 2
          \<and> (case close_display self1 w1 of
                (r', self2, w2) \<Rightarrow>
                  r' = Inr () \<and> priv_keyboard_description self2 = None
                  \<and> \<not> snapshot_allocated w2 2
                  \<and> priv_display self2 = Some 1 \<and> connections w2 = {1}
                  \<and> close_display self2 w2 = (Inr (), self2, w2)))"
proof (intro conjI allI)
  fix self w
  show "connections (snd (snd (close_display self w))) = connections w"
    by (rule close_display_keeps_connection)
  show "priv_display (fst (snd (close_display self w))) = priv_display self"
    by (rule close_display_keeps_connection)
next
  show "case open_display good_replies new_XKeyboard idle_xlib of
        (r, self1, w1) \<Rightarrow>
          r = Inr () \<and> priv_display self1 = Some 1 \<and> priv_keyboard_description self1 = Some 2
          \<and> connections w1 = {1} \<and> snapshot_allocated w1 2
          \<and> (case close_display self1 w1 of
                (r', self2, w2) \<Rightarrow>
                  r' = Inr () \<and> priv_keyboard_description self2 = None
                  \<and> \<not> snapshot_allocated w2 2
                  \<and> priv_display self2 = Some 1 \<and> connections w2 = {1}
                  \<and> close_display self2 w2 = (Inr (), self2, w2))"
    by (simp add: session_eval xlib_eval)
qed

text \<open>
  Claim C9 (\<open>groupCount()\<close>), as stated, fails in its second half: with a null controls
  pointer and the group-name slots \<open>[3, 0, 0, 0]\<close> the getter does not return 1, the
  number of leading slots that are not the null atom; it raises \<open>ValueError\<close>. The test
  \<open>ctrls is not None\<close> is true for every pointer, so the scan is never reached.
\<close>

theorem groups_count_null_controls_counterexample:
  "groups_count \<lparr>priv_display = Some 1, priv_keyboard_description = Some 2\<rparr>
      (xlib_with_groups [3, 0, 0, 0]) = Inl (ValueError ''NULL pointer access'')"
  by (simp add: groups_count_def contents_def pointer_is_not_None_def xlib_with_groups_def
      NULL_def)

text \<open>
  Claim C9, amended. With a controls block, \<open>groups_count\<close> is its \<open>num_groups\<close>; after
  every successful \<open>open_display\<close> the block is there, and \<open>groups_count\<close> is the
  \<open>num_groups\<close> that the controls fetch reported. With a null controls pointer the
  getter raises \<open>ValueError\<close>, whatever the group-name slots are; so a value that
  \<open>groups_count\<close> returns is always the count of a controls block, never a count of
  slots.
\<close>

theorem groups_count_reads_controls:
  "(\<forall>self w k desc c.
      priv_keyboard_description self = Some k \<and> k \<noteq> NULL \<and> descriptions w k = Some desc
      \<and> ctrls desc = Some c
      \<longrightarrow> groups_count self w = Inr (num_groups c))
   \<and> (\<forall>replies self w self' w'.
      open_display replies self w = (Inr (), self', w')
      \<longrightarrow> groups_count self' w' = Inr (num_groups (snd (fetchControls replies))))
   \<and> (\<forall>self w k desc.
      priv_keyboard_description self = Some k \<and> k \<noteq> NULL \<and> descriptions w k = Some desc
      \<and> ctrls desc = None
      \<longrightarrow> groups_count self w = Inl (ValueError ''NULL pointer access''))
   \<and> (\<forall>self w n.
      groups_count self w = Inr n
      \<longrightarrow> (\<exists>k desc c. priv_keyboard_description self = Some k \<and> descriptions w k = Some desc
             \<and> ctrls desc = Some c \<and> n = num_groups c))"
proof (intro conjI allI impI)
  fix self :: XKeyboard and w :: xlib and k and desc :: XkbDescRec and c :: XkbControlsRec
  assume "priv_keyboard_description self = Some k \<and> k \<noteq> NULL \<and> descriptions w k = Some desc
      \<and> ctrls desc = Some c"
  then show "groups_count self w = Inr (num_groups c)"
    by (simp add: groups_count_def contents_def pointer_is_not_None_def)
next
  fix replies :: server_replies and self self' :: XKeyboard and w w' :: xlib
  assume "open_display replies self w = (Inr (), self', w')"
  then show "groups_count self' w' = Inr (num_groups (snd (fetchControls replies)))"
    by (rule open_display_groups_count)
next
  fix self :: XKeyboard and w :: xlib and k and desc :: XkbDescRec
  assume "priv_keyboard_description self = Some k \<and> k \<noteq> NULL \<and> descriptions w k = Some desc
      \<and> ctrls desc = None"
  then show "groups_count self w = Inl (ValueError ''NULL pointer access'')"
    by (simp add: groups_count_def contents_def pointer_is_not_None_def)
next
  fix self :: XKeyboard and w :: xlib and n
  assume "groups_count self w = Inr n"
  then show "\<exists>k desc c. priv_keyboard_description self = Some k \<and> descriptions w k = Some desc
             \<and> ctrls desc = Some c \<and> n = num_groups c"
    by (auto simp: groups_count_def contents_def pointer_is_not_None_def
        split: option.splits sum.splits if_splits)
qed

theorem groups_count_reads_controls_witness:
  "open_display good_replies new_XKeyboard idle_xlib =
      (Inr (), fst (snd (open_display good_replies new_XKeyboard idle_xlib)),
       snd (snd (open_display good_replies new_XKeyboard idle_xlib)))
   \<and> groups_count (fst (snd (open_display good_replies new_XKeyboard idle_xlib)))
        (snd (snd (open_display good_replies new_XKeyboard idle_xlib))) = Inr 2
   \<and> descriptions (xlib_with_groups [3, 4, 0, 6]) 2 =
        Some \<lparr>client_map = True, ctrls = None,
              names = Some \<lparr>symbols = 5, groups = [3, 4, 0, 6]\<rparr>\<rparr>
   \<and> groups_count \<lparr>priv_display = Some 1, priv_keyboard_description = Some 2\<rparr>
        (xlib_with_groups [3, 4, 0, 6]) = Inl (ValueError ''NULL pointer access'')"
proof -
  let ?o = "open_display good_replies new_XKeyboard idle_xlib"
  let ?self = "\<lparr>priv_display = Some 1, priv_keyboard_description = Some (2::nat)\<rparr>"
  let ?desc = "\<lparr>client_map = True, ctrls = None,
                names = Some \<lparr>symbols = 5, groups = [3, 4, 0, 6]\<rparr>\<rparr>"
  have o: "?o = (Inr (), fst (snd ?o), snd (snd ?o))"
    by (simp add: session_eval xlib_eval)
  have d: "descriptions (xlib_with_groups [3, 4, 0, 6]) 2 = Some ?desc"
    by (simp add: xlib_with_groups_def)
  from groups_count_reads_controls o
  have "groups_count (fst (snd ?o)) (snd (snd ?o)) = Inr (num_groups (snd (fetchControls good_replies)))"
    by blast
  then have 1: "groups_count (fst (snd ?o)) (snd (snd ?o)) = Inr 2"
    by (simp add: good_replies_def)
  have h: "priv_keyboard_description ?self = Some 2 \<and> (2::nat) \<noteq> NULL
      \<and> descriptions (xlib_with_groups [3, 4, 0, 6]) 2 = Some ?desc \<and> ctrls ?desc = None"
    using d by (simp add: NULL_def)
  from groups_count_reads_controls h
  have 2: "groups_count ?self (xlib_with_groups [3, 4, 0, 6]) = Inl (ValueError ''NULL pointer access'')"
    by blast
  from o 1 d 2 show ?thesis by blast
qed

text \<open>
  Claim C10 (the setter of \<open>group_num\<close>). When the server accepts, the request is
  flushed (it is among the delivered requests, the output buffer holds nothing for the
  display) and the session is unchanged. When the server rejects, \<open>X11Error\<close> is raised
  after \<open>close_display\<close>, which releases the description but leaves connection 1 open
  and \<open>_display\<close> set, for the reason given at claim C1: the session is not closed.
\<close>

theorem set_group_num_rejected_keeps_connection:
  "(case open_display good_replies new_XKeyboard idle_xlib of
      (r, self1, w1) \<Rightarrow>
        r = Inr ()
        \<and> (case set_group_num (PyInt 1) False self1 w1 of
              (r', self2, w2) \<Rightarrow>
                r' = Inl (X11Error ''Failed to set group number.'')
                \<and> \<not> holds_description self2
                \<and> priv_display self2 = Some 1 \<and> holds_connection self2 \<and> connections w2 = {1})
        \<and> (case set_group_num (PyInt 1) True self1 w1 of
              (r', self2, w2) \<Rightarrow>
                r' = Inr () \<and> self2 = self1 \<and> delivered w2 = [(1, 1)] \<and> output_buffer w2 = []
                \<and> connections w2 = {1}))"
  by (simp add: session_eval xlib_eval)

end
